theory Spec2Isabelle
  imports Main "HOL-Library.AList" "HOL-Library.List_Lexorder" "HOL-Library.Product_Lexorder"
begin

section \<open>Python strings and values\<close>

text \<open>
  A Python \<^verbatim>\<open>str\<close> is a sequence of Unicode code points, so a string is a list of
  naturals and its length is the length of the list. \<open>S\<close> turns an Isabelle
  literal (with ASCII characters) into such a string.
\<close>

type_synonym pychar = nat
type_synonym pystr = "nat list"

definition S :: "string \<Rightarrow> pystr" where
  "S cs = map of_char cs"

text \<open>
  \<^verbatim>\<open>str.isspace\<close>, \<^verbatim>\<open>str.strip\<close> and the pattern \<^verbatim>\<open>\s\<close> of \<^verbatim>\<open>re\<close> on \<^verbatim>\<open>str\<close>
  agree on what whitespace is: U+0009..U+000D, U+001C..U+0020, U+0085, U+00A0,
  U+1680, U+2000..U+200A, U+2028, U+2029, U+202F, U+205F and U+3000.
\<close>

definition isspace :: "pychar \<Rightarrow> bool" where
  "isspace c \<longleftrightarrow>
     (9 \<le> c \<and> c \<le> 13) \<or> (28 \<le> c \<and> c \<le> 32) \<or> c = 133 \<or> c = 160 \<or> c = 5760 \<or>
     (8192 \<le> c \<and> c \<le> 8202) \<or> c = 8232 \<or> c = 8233 \<or> c = 8239 \<or> c = 8287 \<or>
     c = 12288"

definition lstrip :: "pystr \<Rightarrow> pystr" where
  "lstrip s = dropWhile isspace s"

definition rstrip :: "pystr \<Rightarrow> pystr" where
  "rstrip s = rev (dropWhile isspace (rev s))"

definition strip :: "pystr \<Rightarrow> pystr" where
  "strip s = rstrip (lstrip s)"

text \<open>
  The Unicode character database is not part of the repository. On a string of
  ASCII characters \<^verbatim>\<open>str.lower\<close> maps \<^verbatim>\<open>A..Z\<close> to \<^verbatim>\<open>a..z\<close> and the patterns
  \<^verbatim>\<open>\w\<close> and \<^verbatim>\<open>\d\<close> are \<^verbatim>\<open>[A-Za-z0-9_]\<close> and \<^verbatim>\<open>[0-9]\<close>; that part is computed
  here. What Python does beyond ASCII is a parameter of the model: every
  theorem holds for every value of it.
\<close>

record unicode =
  lower_u :: "pystr \<Rightarrow> pystr"
  word_u :: "pychar \<Rightarrow> bool"
  digit_u :: "pychar \<Rightarrow> bool"

definition lower_ascii :: "pychar \<Rightarrow> pychar" where
  "lower_ascii c = (if 65 \<le> c \<and> c \<le> 90 then c + 32 else c)"

definition lower :: "unicode \<Rightarrow> pystr \<Rightarrow> pystr" where
  "lower U s = (if list_all (\<lambda>c. c < 128) s then map lower_ascii s else lower_u U s)"

text \<open>
  The values the extraction code inspects: it tests \<^verbatim>\<open>isinstance\<close> against
  \<^verbatim>\<open>str\<close>, \<^verbatim>\<open>dict\<close> and \<^verbatim>\<open>int\<close> (which \<^verbatim>\<open>bool\<close> is a subclass of), takes truth
  values, and calls \<^verbatim>\<open>get\<close>, \<^verbatim>\<open>strip\<close> and \<^verbatim>\<open>lower\<close>. Of a float it can only
  observe whether it is zero: \<open>PFloat b\<close> is a float whose truth value is \<open>b\<close>.
\<close>

datatype pyval =
    PNone
  | PBool bool
  | PInt int
  | PStr pystr
  | PList "pyval list"
  | PDict "(pystr \<times> pyval) list"
  | PFloat bool

datatype error = AttributeError | TypeError | KeyError

fun truthy :: "pyval \<Rightarrow> bool" where
  "truthy PNone = False"
| "truthy (PBool b) = b"
| "truthy (PInt i) = (i \<noteq> 0)"
| "truthy (PStr s) = (s \<noteq> [])"
| "truthy (PList xs) = (xs \<noteq> [])"
| "truthy (PDict kvs) = (kvs \<noteq> [])"
| "truthy (PFloat b) = b"

text \<open>\<^verbatim>\<open>d.get(k)\<close>, and \<^verbatim>\<open>a or b\<close>.\<close>

definition dict_get :: "(pystr \<times> pyval) list \<Rightarrow> pystr \<Rightarrow> pyval" where
  "dict_get d k = (case map_of d k of None \<Rightarrow> PNone | Some v \<Rightarrow> v)"

definition py_or :: "pyval \<Rightarrow> pyval \<Rightarrow> pyval" where
  "py_or a b = (if truthy a then a else b)"

section \<open>The Item Normalizer (actions.py)\<close>

text \<open>
  An entry of \<^verbatim>\<open>norm\<close> is the dict literal
  \<^verbatim>\<open>{"title": title, "importance": imp}\<close>: a pair here, and \<open>as_dict\<close> is the dict
  as a Python value.
\<close>

type_synonym action_item = "pystr \<times> pyval"

definition as_dict :: "action_item \<Rightarrow> pyval" where
  "as_dict n = PDict [(S ''title'', PStr (fst n)), (S ''importance'', snd n)]"

text \<open>\<^verbatim>\<open>{"low": 1, "normal": 2, "high": 3}.get(label, 2)\<close>\<close>

definition importance_label :: "pystr \<Rightarrow> int" where
  "importance_label l =
     (if l = S ''low'' then 1 else if l = S ''normal'' then 2
      else if l = S ''high'' then 3 else 2)"

text \<open>
  Lines 26 to 30: a label is looked up, then anything that is not an \<^verbatim>\<open>int\<close>
  within 0..3 becomes 2. \<^verbatim>\<open>True\<close> and \<^verbatim>\<open>False\<close> are instances of \<^verbatim>\<open>int\<close> within
  0..3 and stay as they are.
\<close>

definition normalize_importance :: "unicode \<Rightarrow> pyval \<Rightarrow> pyval" where
  "normalize_importance U v =
     (let imp = (case v of PStr l \<Rightarrow> PInt (importance_label (lower U l)) | _ \<Rightarrow> v) in
      case imp of
        PInt i \<Rightarrow> if 0 \<le> i \<and> i \<le> 3 then PInt i else PInt 2
      | PBool b \<Rightarrow> PBool b
      | _ \<Rightarrow> PInt 2)"

text \<open>
  One round of the first loop, returning what it appends to \<^verbatim>\<open>norm\<close>. On a dict,
  \<^verbatim>\<open>(it.get("title") or it.get("task") or "").strip()\<close> raises \<^verbatim>\<open>AttributeError\<close>
  when the value picked is not a string.
\<close>

fun normalize_entry :: "unicode \<Rightarrow> pyval \<Rightarrow> error + action_item list" where
  "normalize_entry U (PStr it) =
     (let title = strip it in
      if title \<noteq> [] then Inr [(title, PInt 2)] else Inr [])"
| "normalize_entry U (PDict it) =
     (case py_or (dict_get it (S ''title'')) (py_or (dict_get it (S ''task'')) (PStr [])) of
        PStr t \<Rightarrow>
          (let title = strip t in
           if title \<noteq> []
           then Inr [(title, normalize_importance U (dict_get it (S ''importance'')))]
           else Inr [])
      | _ \<Rightarrow> Inl AttributeError)"
| "normalize_entry U _ = Inr []"

fun normalize_loop :: "unicode \<Rightarrow> pyval list \<Rightarrow> error + action_item list" where
  "normalize_loop U [] = Inr []"
| "normalize_loop U (it # items) =
     (case normalize_entry U it of
        Inl e \<Rightarrow> Inl e
      | Inr ns \<Rightarrow>
          (case normalize_loop U items of
             Inl e \<Rightarrow> Inl e
           | Inr rest \<Rightarrow> Inr (ns @ rest)))"

text \<open>The second loop, lines 33 to 40, with the set \<^verbatim>\<open>seen\<close> as its state.\<close>

fun dedupe :: "unicode \<Rightarrow> pystr set \<Rightarrow> action_item list \<Rightarrow> action_item list" where
  "dedupe U seen [] = []"
| "dedupe U seen (n # ns) =
     (let k = lower U (fst n) in
      if k \<in> seen then dedupe U seen ns else n # dedupe U (insert k seen) ns)"

definition normalize_items :: "unicode \<Rightarrow> pyval list \<Rightarrow> error + action_item list" where
  "normalize_items U items =
     (case normalize_loop U items of
        Inl e \<Rightarrow> Inl e
      | Inr norm \<Rightarrow> Inr (dedupe U {} norm))"

text \<open>
  The shape of an entry the first loop produces: a trimmed, non-empty title and an
  importance that is an \<^verbatim>\<open>int\<close> (or \<^verbatim>\<open>bool\<close>) within 0..3.
\<close>

definition canonical :: "action_item \<Rightarrow> bool" where
  "canonical n \<longleftrightarrow> strip (fst n) = fst n \<and> fst n \<noteq> [] \<and>
     (case snd n of PInt i \<Rightarrow> 0 \<le> i \<and> i \<le> 3 | PBool b \<Rightarrow> True | _ \<Rightarrow> False)"

text \<open>
  A value of the Unicode parameter for closed examples: it leaves every string with a
  character outside ASCII alone. The examples below use ASCII strings, where it is
  never consulted.
\<close>

definition ascii_tables :: unicode where
  "ascii_tables = \<lparr>lower_u = (\<lambda>s. s), word_u = (\<lambda>c. False), digit_u = (\<lambda>c. False)\<rparr>"

section \<open>String operations and patterns (actions.py)\<close>

text \<open>\<^verbatim>\<open>s.startswith(p)\<close>, \<^verbatim>\<open>s.endswith(p)\<close>, \<^verbatim>\<open>t in s\<close>, and the text after a prefix.\<close>

fun startswith :: "pystr \<Rightarrow> pystr \<Rightarrow> bool" where
  "startswith s [] = True"
| "startswith [] (p # ps) = False"
| "startswith (c # cs) (p # ps) = (c = p \<and> startswith cs ps)"

definition endswith :: "pystr \<Rightarrow> pystr \<Rightarrow> bool" where
  "endswith s p = startswith (rev s) (rev p)"

fun contains :: "pystr \<Rightarrow> pystr \<Rightarrow> bool" where
  "contains [] t = (t = [])"
| "contains (c # cs) t = (startswith (c # cs) t \<or> contains cs t)"

definition after_prefix :: "pystr \<Rightarrow> pystr \<Rightarrow> pystr option" where
  "after_prefix s p = (if startswith s p then Some (drop (length p) s) else None)"

text \<open>\<^verbatim>\<open>_QUOTED_LINE = ^\s*>+\<close> and \<^verbatim>\<open>_SIG_LINE = ^\s*--\s*$\<close>, used with \<^verbatim>\<open>match\<close>.\<close>

definition quoted_line :: "pystr \<Rightarrow> bool" where
  "quoted_line s = (case dropWhile isspace s of [] \<Rightarrow> False | c # cs \<Rightarrow> c = 62)"

definition sig_line :: "pystr \<Rightarrow> bool" where
  "sig_line ln =
     (case after_prefix (dropWhile isspace ln) (S ''--'') of
        None \<Rightarrow> False
      | Some r \<Rightarrow> list_all isspace r)"

text \<open>
  \<^verbatim>\<open>_URL = https?://\S+\<close>. \<open>url_match s\<close> is the text after a match that starts at
  the head of \<open>s\<close>; \<open>url_sub rep\<close> is \<^verbatim>\<open>_URL.sub(rep, text)\<close>, replacing the
  leftmost matches from left to right.
\<close>

definition url_match :: "pystr \<Rightarrow> pystr option" where
  "url_match s =
     (case after_prefix s (S ''http'') of
        None \<Rightarrow> None
      | Some r \<Rightarrow>
          (case after_prefix (case after_prefix r (S ''s'') of None \<Rightarrow> r | Some r' \<Rightarrow> r') (S ''://'') of
             None \<Rightarrow> None
           | Some t \<Rightarrow>
               (case t of
                  [] \<Rightarrow> None
                | c # cs \<Rightarrow> if isspace c then None else Some (dropWhile (\<lambda>x. \<not> isspace x) cs))))"

function url_sub :: "pystr \<Rightarrow> pystr \<Rightarrow> pystr" where
  "url_sub rep [] = []"
| "url_sub rep (c # cs) =
     (case url_match (c # cs) of
        None \<Rightarrow> c # url_sub rep cs
      | Some rest \<Rightarrow> rep @ url_sub rep rest)"
  by pat_completeness auto
termination
proof (relation "measure (\<lambda>(rep, s). length s)")
  show "wf (measure (\<lambda>(rep, s). length s))" by simp
next
  fix rep :: pystr and c :: pychar and cs :: pystr
  show "((rep, cs), (rep, c # cs)) \<in> measure (\<lambda>(rep, s). length s)" by simp
next
  fix rep rest :: pystr and c :: pychar and cs :: pystr
  assume m: "url_match (c # cs) = Some rest"
  have d: "n + Suc (length ys) \<le> length xs" if "drop n xs = y # ys" for n y and xs ys :: pystr
    using arg_cong [OF that, of length] by simp
  have "length rest < length (c # cs)"
    using m
    by (auto simp: url_match_def after_prefix_def S_def
             split: if_splits option.splits list.splits
             intro!: le_imp_less_Suc order_trans [OF length_dropWhile_le]
             dest!: d)
  then show "((rep, rest), (rep, c # cs)) \<in> measure (\<lambda>(rep, s). length s)" by simp
qed

text \<open>\<^verbatim>\<open>_WHITESPACE.sub(" ", text)\<close> with \<^verbatim>\<open>_WHITESPACE = \s+\<close>, and \<^verbatim>\<open>text.replace("\r", "\n")\<close>.\<close>

function collapse_ws :: "pystr \<Rightarrow> pystr" where
  "collapse_ws [] = []"
| "collapse_ws (c # cs) =
     (if isspace c then 32 # collapse_ws (dropWhile isspace cs) else c # collapse_ws cs)"
  by pat_completeness auto
termination
  by (relation "measure length") (auto intro: le_imp_less_Suc length_dropWhile_le)

definition replace_cr :: "pystr \<Rightarrow> pystr" where
  "replace_cr text = map (\<lambda>c. if c = 13 then 10 else c) text"

text \<open>
  \<^verbatim>\<open>re.split(r"(?<=[\.\?!])\s+|\n+", text)\<close>. The scan carries the character before
  the position (for the lookbehind) and the piece read so far. At each position
  the first alternative is tried before the second; a match ends the piece.
\<close>

definition terminal :: "pychar option \<Rightarrow> bool" where
  "terminal prev = (prev = Some 46 \<or> prev = Some 63 \<or> prev = Some 33)"

function re_split :: "pychar option \<Rightarrow> pystr \<Rightarrow> pystr \<Rightarrow> pystr list" where
  "re_split prev piece [] = [piece]"
| "re_split prev piece (c # cs) =
     (if terminal prev \<and> isspace c
      then piece # re_split (Some (last (c # takeWhile isspace cs))) [] (dropWhile isspace cs)
      else if c = 10
      then piece # re_split (Some 10) [] (dropWhile (\<lambda>x. x = 10) cs)
      else re_split (Some c) (piece @ [c]) cs)"
  by pat_completeness auto
termination
  by (relation "measure (\<lambda>(prev, piece, s). length s)")
     (auto intro: le_imp_less_Suc length_dropWhile_le)

text \<open>\<^verbatim>\<open>_split_sentences\<close>, lines 53 to 59.\<close>

definition split_sentences :: "pystr \<Rightarrow> pystr list" where
  "split_sentences text =
     (let text1 = url_sub [] text;
          text2 = collapse_ws text1;
          text3 = replace_cr text2;
          parts = re_split None [] text3
      in map strip (filter (\<lambda>p. p \<noteq> [] \<and> 4 \<le> length (strip p)) parts))"

text \<open>
  The word boundary \<^verbatim>\<open>\b\<close> holds between a word character and a character that
  is not one (or an end of the string).
\<close>

definition is_word :: "unicode \<Rightarrow> pychar \<Rightarrow> bool" where
  "is_word U c =
     (if c < 128
      then (48 \<le> c \<and> c \<le> 57) \<or> (65 \<le> c \<and> c \<le> 90) \<or> (97 \<le> c \<and> c \<le> 122) \<or> c = 95
      else word_u U c)"

definition is_digit :: "unicode \<Rightarrow> pychar \<Rightarrow> bool" where
  "is_digit U c = (if c < 128 then 48 \<le> c \<and> c \<le> 57 else digit_u U c)"

definition word_at :: "unicode \<Rightarrow> pychar option \<Rightarrow> bool" where
  "word_at U x = (case x of None \<Rightarrow> False | Some c \<Rightarrow> is_word U c)"

definition boundary :: "unicode \<Rightarrow> pychar option \<Rightarrow> pystr \<Rightarrow> bool" where
  "boundary U prev rest =
     (word_at U prev \<noteq> word_at U (case rest of [] \<Rightarrow> None | c # cs \<Rightarrow> Some c))"

text \<open>
  A literal word followed by \<^verbatim>\<open>\b\<close>, matched at the head of \<open>s\<close>.
\<close>

definition word_then_boundary :: "unicode \<Rightarrow> pystr \<Rightarrow> pystr \<Rightarrow> bool" where
  "word_then_boundary U s w =
     (case after_prefix s w of
        None \<Rightarrow> False
      | Some r \<Rightarrow> w \<noteq> [] \<and> boundary U (Some (last w)) r)"

text \<open>
  \<^verbatim>\<open>re.match(r"^(please|let\'?s|kindly)\b", s_low)\<close>; the alternative \<^verbatim>\<open>let'?s\<close> is
  \<^verbatim>\<open>let's\<close> or \<^verbatim>\<open>lets\<close>.
\<close>

definition opener_match :: "unicode \<Rightarrow> pystr \<Rightarrow> bool" where
  "opener_match U s_low =
     list_ex (word_then_boundary U s_low)
       [S ''please'', S ''let'' @ [39] @ S ''s'', S ''lets'', S ''kindly'']"

text \<open>
  \<^verbatim>\<open>re.match(r"^(action items?|next steps?|todo|to-do)\s*:?", s_low)\<close>: everything
  after the four words is optional, so the pattern matches exactly when the string
  starts with one of them.
\<close>

definition header_match :: "pystr \<Rightarrow> bool" where
  "header_match s_low =
     list_ex (startswith s_low) [S ''action item'', S ''next step'', S ''todo'', S ''to-do'']"

definition ACTION_TRIGGERS :: "pystr list" where
  "ACTION_TRIGGERS = map S
     [''please'', ''could you'', ''can you'', ''would you'', ''let me know'', ''follow up'',
      ''circle back'', ''confirm'', ''review'', ''share'', ''send'', ''provide'', ''update'',
      ''schedule'', ''book'', ''set up'', ''arrange'', ''reply'', ''respond'', ''sign'',
      ''approve'',
      ''by eod'', ''by tomorrow'', ''by monday'', ''by friday'', ''today'', ''this week'',
      ''deadline'', ''due'', ''asap'', ''urgent'',
      ''attach'', ''attachment'', ''draft'', ''doc'', ''invoice'', ''payment'', ''pay'',
      ''ticket'', ''bug'', ''fix'', ''implement'']"

definition HIGH_HINTS :: "pystr list" where
  "HIGH_HINTS = map S [''asap'', ''urgent'', ''by eod'', ''deadline'', ''due '', ''tomorrow'']"

text \<open>
  \<^verbatim>\<open>_is_candidate\<close>, lines 115 to 144. The match of \<^verbatim>\<open>^[A-Za-z]+(e|)r\b\<close> at line 130
  only guards a \<^verbatim>\<open>pass\<close> and is left out.
\<close>

definition is_candidate :: "unicode \<Rightarrow> pystr \<Rightarrow> bool" where
  "is_candidate U s =
     (let s_low = lower U s in
      if length s < 8 then False
      else if 2 < count_list s 64 then False
      else if list_ex (endswith s) [S ''thanks'', S ''thank you'', S ''best''] then False
      else if list_ex (startswith s) [S ''On '', S ''From:'', S ''To:'', S ''Subject:''] then False
      else if quoted_line s then False
      else if opener_match U s_low then True
      else if list_ex (contains s_low) ACTION_TRIGGERS then True
      else if endswith s_low (S ''?'') \<and>
              list_ex (contains s_low)
                [S ''can'', S ''could'', S ''would'', S ''will'', S ''do you'', S ''are you'']
           then True
      else if header_match s_low then True
      else False)"

text \<open>
  The two searches of \<^verbatim>\<open>_importance_from_text\<close>:
  \<^verbatim>\<open>\b(?:mon|tue|wed|thu|fri|sat|sun|today|tomorrow)\b\<close> and \<^verbatim>\<open>\b\d{1,2}/\d{1,2}\b\<close>.
  \<open>re_search m\<close> tries \<open>m\<close> at every position, from left to right.
\<close>

fun re_search :: "(pychar option \<Rightarrow> pystr \<Rightarrow> bool) \<Rightarrow> pychar option \<Rightarrow> pystr \<Rightarrow> bool" where
  "re_search m prev [] = m prev []"
| "re_search m prev (c # cs) = (m prev (c # cs) \<or> re_search m (Some c) cs)"

definition weekday_at :: "unicode \<Rightarrow> pychar option \<Rightarrow> pystr \<Rightarrow> bool" where
  "weekday_at U prev s =
     (boundary U prev s \<and>
      list_ex (word_then_boundary U s)
        (map S [''mon'', ''tue'', ''wed'', ''thu'', ''fri'', ''sat'', ''sun'', ''today'',
                ''tomorrow'']))"

text \<open>
  \<^verbatim>\<open>\d{1,2}\<close> at the head of \<open>s\<close>: the last digit taken and the text after it, for
  two digits and then for one.
\<close>

definition digits12 :: "unicode \<Rightarrow> pystr \<Rightarrow> (pychar \<times> pystr) list" where
  "digits12 U s =
     (case s of
        [] \<Rightarrow> []
      | a # r \<Rightarrow>
          if is_digit U a
          then (case r of
                  [] \<Rightarrow> [(a, r)]
                | b # r2 \<Rightarrow> if is_digit U b then [(b, r2), (a, r)] else [(a, r)])
          else [])"

definition date_at :: "unicode \<Rightarrow> pychar option \<Rightarrow> pystr \<Rightarrow> bool" where
  "date_at U prev s =
     (boundary U prev s \<and>
      list_ex (\<lambda>(a, r). case r of
                  [] \<Rightarrow> False
                | c # r2 \<Rightarrow> c = 47 \<and> list_ex (\<lambda>(b, r3). boundary U (Some b) r3) (digits12 U r2))
        (digits12 U s))"

text \<open>\<^verbatim>\<open>_importance_from_text\<close>, lines 147 to 156.\<close>

definition importance_from_text :: "unicode \<Rightarrow> pystr \<Rightarrow> int" where
  "importance_from_text U s =
     (let s_low = lower U s in
      if list_ex (contains s_low) HIGH_HINTS then 3
      else if re_search (weekday_at U) None s_low \<or> re_search (date_at U) None s_low then 2
      else 2)"

section \<open>Heuristic extraction and the orchestrator (actions.py)\<close>

text \<open>
  \<^verbatim>\<open>body.splitlines()\<close>: a line ends at \<^verbatim>\<open>\r\n\<close> or at one of \<^verbatim>\<open>\n\<close>, \<^verbatim>\<open>\r\<close>, \<^verbatim>\<open>\v\<close>,
  \<^verbatim>\<open>\f\<close>, U+001C, U+001D, U+001E, U+0085, U+2028, U+2029; there is no empty last
  line.
\<close>

definition is_linebreak :: "pychar \<Rightarrow> bool" where
  "is_linebreak c \<longleftrightarrow>
     (10 \<le> c \<and> c \<le> 13) \<or> (28 \<le> c \<and> c \<le> 30) \<or> c = 133 \<or> c = 8232 \<or> c = 8233"

fun splitlines_from :: "pystr \<Rightarrow> pystr \<Rightarrow> pystr list" where
  "splitlines_from ln [] = (if ln = [] then [] else [ln])"
| "splitlines_from ln [c] = (if is_linebreak c then [ln] else [ln @ [c]])"
| "splitlines_from ln (c # d # ds) =
     (if c = 13 \<and> d = 10 then ln # splitlines_from [] ds
      else if is_linebreak c then ln # splitlines_from [] (d # ds)
      else splitlines_from (ln @ [c]) (d # ds))"

definition splitlines :: "pystr \<Rightarrow> pystr list" where
  "splitlines s = splitlines_from [] s"

text \<open>The loop of lines 169 to 174, and \<^verbatim>\<open>"\n".join(lines)\<close>.\<close>

fun keep_lines :: "pystr list \<Rightarrow> pystr list" where
  "keep_lines [] = []"
| "keep_lines (ln # lns) =
     (if sig_line ln then []
      else if quoted_line ln then keep_lines lns
      else ln # keep_lines lns)"

fun join_nl :: "pystr list \<Rightarrow> pystr" where
  "join_nl [] = []"
| "join_nl [ln] = ln"
| "join_nl (ln # m # lns) = ln @ 10 # join_nl (m # lns)"

text \<open>
  The loop of lines 181 to 188 over the candidates, with \<^verbatim>\<open>seen\<close> and the length of
  \<^verbatim>\<open>items\<close> as its state; it breaks when the fifth item has been appended.
\<close>

fun collect :: "unicode \<Rightarrow> pystr set \<Rightarrow> nat \<Rightarrow> pystr list \<Rightarrow> action_item list" where
  "collect U seen n [] = []"
| "collect U seen n (s # ss) =
     (let key = lower U s in
      if key \<in> seen then collect U seen n ss
      else (s, PInt (importance_from_text U s)) #
           (if 5 \<le> Suc n then [] else collect U (insert key seen) (Suc n) ss))"

text \<open>\<^verbatim>\<open>s.split()\<close> and the loop of lines 192 to 195.\<close>

fun split_from :: "pystr \<Rightarrow> pystr \<Rightarrow> pystr list" where
  "split_from w [] = (if w = [] then [] else [w])"
| "split_from w (c # cs) =
     (if isspace c then (if w = [] then split_from [] cs else w # split_from [] cs)
      else split_from (w @ [c]) cs)"

definition split_ws :: "pystr \<Rightarrow> pystr list" where
  "split_ws s = split_from [] s"

fun first_long :: "pystr list \<Rightarrow> action_item list" where
  "first_long [] = []"
| "first_long (s # ss) =
     (if 6 \<le> length (split_ws s) then [(s, PInt 2)] else first_long ss)"

text \<open>\<^verbatim>\<open>fallback_extract_from_body\<close>, lines 159 to 197.\<close>

definition body_text :: "pystr \<Rightarrow> pystr" where
  "body_text body = strip (join_nl (keep_lines (splitlines body)))"

definition fallback_items :: "unicode \<Rightarrow> pystr \<Rightarrow> action_item list" where
  "fallback_items U body =
     (let text = body_text body;
          candidates = filter (is_candidate U) (split_sentences text);
          items = collect U {} 0 candidates
      in if items = [] then first_long (split_sentences text) else items)"

definition fallback_extract_from_body :: "unicode \<Rightarrow> pystr \<Rightarrow> error + action_item list" where
  "fallback_extract_from_body U body =
     (if body = [] then Inr []
      else normalize_items U (map as_dict (fallback_items U body)))"

text \<open>
  \<^verbatim>\<open>for it in items or []\<close> at line 18, for any value of \<^verbatim>\<open>items\<close>: a string is
  iterated by character and a dict by key, a number that is not zero raises
  \<^verbatim>\<open>TypeError\<close>.
\<close>

fun items_of :: "pyval \<Rightarrow> error + pyval list" where
  "items_of PNone = Inr []"
| "items_of (PBool b) = (if b then Inl TypeError else Inr [])"
| "items_of (PInt i) = (if i \<noteq> 0 then Inl TypeError else Inr [])"
| "items_of (PFloat b) = (if b then Inl TypeError else Inr [])"
| "items_of (PStr s) = Inr (map (\<lambda>c. PStr [c]) s)"
| "items_of (PList xs) = Inr xs"
| "items_of (PDict kvs) = Inr (map PStr (rev (remdups (rev (map fst kvs)))))"

definition normalize_value :: "unicode \<Rightarrow> pyval \<Rightarrow> error + action_item list" where
  "normalize_value U v =
     (case items_of v of Inl e \<Rightarrow> Inl e | Inr items \<Rightarrow> normalize_items U items)"

text \<open>\<^verbatim>\<open>extract_actions\<close>, lines 200 to 212; \<^verbatim>\<open>summary_json\<close> is a dict.\<close>

definition extract_actions ::
  "unicode \<Rightarrow> (pystr \<times> pyval) list \<Rightarrow> pystr \<Rightarrow> error + action_item list" where
  "extract_actions U summary_json body =
     (let items = py_or (dict_get summary_json (S ''action_items'')) (PList []) in
      case normalize_value U items of
        Inl e \<Rightarrow> Inl e
      | Inr norm \<Rightarrow> if norm \<noteq> [] then Inr norm else fallback_extract_from_body U body)"

section \<open>The Text Normalizer (preprocess.py)\<close>

text \<open>
  \<^verbatim>\<open>text[:k]\<close> for an integer \<open>k\<close> (a negative \<open>k\<close> counts from the end), the marker
  U+2026, and \<^verbatim>\<open>_truncate\<close>, lines 36 to 39 (\<open>truncate\<close> is a name of every record).
\<close>

definition slice_to :: "pystr \<Rightarrow> int \<Rightarrow> pystr" where
  "slice_to text k =
     (if 0 \<le> k then take (nat k) text else take (length text - nat (- k)) text)"

definition ellipsis :: pychar where
  "ellipsis = 8230"

definition MAX_CHARS :: int where
  "MAX_CHARS = 1500"

definition truncate_str :: "pystr \<Rightarrow> int \<Rightarrow> pystr" where
  "truncate_str text limit =
     (if int (length text) \<le> limit then strip text
      else rstrip (slice_to text (limit - 1)) @ [ellipsis])"

text \<open>\<^verbatim>\<open>_simplify_urls\<close>, and \<^verbatim>\<open>re.sub(r"\n{3,}", "\n\n", text)\<close> of line 56.\<close>

definition simplify_urls :: "pystr \<Rightarrow> pystr" where
  "simplify_urls text = url_sub (S ''[link]'') text"

function squeeze_newlines :: "pystr \<Rightarrow> pystr" where
  "squeeze_newlines [] = []"
| "squeeze_newlines (c # cs) =
     (if c = 10 \<and> startswith cs [10, 10]
      then 10 # 10 # squeeze_newlines (dropWhile (\<lambda>x. x = 10) cs)
      else c # squeeze_newlines cs)"
  by pat_completeness auto
termination
  by (relation "measure length") (auto intro: le_imp_less_Suc length_dropWhile_le)

text \<open>
  What the code calls outside the repository is a parameter of the model:
  \<^item> \<open>parse_reply\<close> is \<^verbatim>\<open>EmailReplyParser.parse_reply\<close>;
  \<^item> \<open>get_text\<close> is the text BeautifulSoup gives for a document, after the \<^verbatim>\<open>script\<close>
    and \<^verbatim>\<open>style\<close> tags are removed, with separator \<^verbatim>\<open>"\n"\<close> (lines 52 to 55);
  \<^item> \<open>utf8_replace\<close> is \<^verbatim>\<open>bytes.decode("utf-8", errors="replace")\<close> on bytes that are not
    all ASCII;
  \<^item> \<open>to_int\<close> is \<^verbatim>\<open>int(s)\<close>, \<open>None\<close> when it raises;
  \<^item> \<open>parsedate_ms\<close> is lines 155 to 158, the \<^verbatim>\<open>Date\<close> header as epoch milliseconds,
    \<open>None\<close> when they raise;
  \<^item> \<open>now_ms\<close> is the clock read at line 162.
  The reply parser and BeautifulSoup are taken to return a string for every string.
\<close>

record library =
  parse_reply :: "pystr \<Rightarrow> pystr"
  get_text :: "pystr \<Rightarrow> pystr"
  utf8_replace :: "nat list \<Rightarrow> pystr"
  to_int :: "pystr \<Rightarrow> int option"
  parsedate_ms :: "pystr \<Rightarrow> int option"
  now_ms :: int

definition html_to_text :: "library \<Rightarrow> pystr \<Rightarrow> pystr" where
  "html_to_text L html = strip (squeeze_newlines (get_text L html))"

text \<open>
  \<^verbatim>\<open>clean_email\<close>, lines 61 to 91. \<open>pre_truncation\<close> is \<^verbatim>\<open>body_clean\<close> after step 4's
  URL replacement, the text that \<^verbatim>\<open>_truncate\<close> receives. The headers are a dict from
  names to values, or \<^verbatim>\<open>None\<close>.
\<close>

type_synonym header_dict = "(pystr \<times> pystr) list"

definition header_get :: "header_dict \<Rightarrow> pystr \<Rightarrow> pystr" where
  "header_get headers k = (case map_of headers k of None \<Rightarrow> [] | Some v \<Rightarrow> v)"

definition pre_truncation :: "unicode \<Rightarrow> library \<Rightarrow> pystr \<Rightarrow> pystr" where
  "pre_truncation U L body =
     (let body_clean = parse_reply L body;
          body_clean2 =
            (if contains (lower U body_clean) (S ''<html'') \<or>
                contains (take 200 body_clean) (S ''</'')
             then html_to_text L body_clean
             else body_clean)
      in simplify_urls body_clean2)"

record cleaned_email =
  email_subject :: pystr
  email_body :: pystr

definition clean_email ::
  "unicode \<Rightarrow> library \<Rightarrow> pystr \<Rightarrow> pystr \<Rightarrow> header_dict option \<Rightarrow> cleaned_email" where
  "clean_email U L subject body headers =
     (let body_clean = truncate_str (pre_truncation U L body) MAX_CHARS;
          subject_clean = (if strip subject \<noteq> [] then strip subject else S ''(no subject)'');
          subject_clean2 =
            (case headers of
               None \<Rightarrow> subject_clean
             | Some h \<Rightarrow>
                 if h \<noteq> [] \<and> header_get h (S ''From'') \<noteq> []
                 then header_get h (S ''From'') @ S '': '' @ subject_clean
                 else subject_clean)
      in \<lparr>email_subject = subject_clean2, email_body = body_clean\<rparr>)"

section \<open>Raw Gmail messages (preprocess.py)\<close>

text \<open>
  \<^verbatim>\<open>_headers_to_dict\<close>, lines 110 to 119. The header list is a list of name and value
  pairs. The dict comprehension stores the pairs from left to right, a later value
  replacing an earlier one under the same name. The cache is the state; its key is
  the sorted list of pairs (the code takes \<^verbatim>\<open>str\<close> of it, which tells two such lists
  apart).
\<close>

definition dict_of_headers :: "(pystr \<times> pystr) list \<Rightarrow> header_dict" where
  "dict_of_headers headers = foldl (\<lambda>d (k, v). AList.update k v d) [] headers"

type_synonym header_cache = "(pystr \<times> pystr) list \<rightharpoonup> header_dict"

definition headers_to_dict ::
  "header_cache \<Rightarrow> (pystr \<times> pystr) list \<Rightarrow> header_dict \<times> header_cache" where
  "headers_to_dict cache headers =
     (let key = sort headers in
      case cache key of
        None \<Rightarrow> (dict_of_headers headers, cache(key \<mapsto> dict_of_headers headers))
      | Some d \<Rightarrow> (d, cache))"

text \<open>
  A MIME part: its \<^verbatim>\<open>mimeType\<close> (\<^verbatim>\<open>""\<close> when missing), the \<^verbatim>\<open>data\<close> of its \<^verbatim>\<open>body\<close>
  (\<open>None\<close> when missing) and its \<^verbatim>\<open>parts\<close>.
\<close>

datatype part = Part pystr "pystr option" "part list"

definition textual :: "pystr \<Rightarrow> bool" where
  "textual mime_type = (mime_type = S ''text/plain'' \<or> startswith mime_type (S ''text/''))"

text \<open>
  \<^verbatim>\<open>_decode_part\<close>, lines 122 to 138, with the expression inside \<^verbatim>\<open>try\<close> as the
  parameter \<open>dec\<close>: \<open>None\<close> when it raises.
\<close>

fun decode_part :: "(pystr \<Rightarrow> pystr option) \<Rightarrow> part \<Rightarrow> pystr"
  and decode_parts :: "(pystr \<Rightarrow> pystr option) \<Rightarrow> part list \<Rightarrow> pystr" where
  "decode_part dec (Part mime_type data parts) =
     (case data of
        None \<Rightarrow> decode_parts dec parts
      | Some d \<Rightarrow>
          if d \<noteq> [] \<and> textual mime_type
          then (case dec d of None \<Rightarrow> [] | Some text \<Rightarrow> text)
          else decode_parts dec parts)"
| "decode_parts dec [] = []"
| "decode_parts dec (sub # subs) =
     (let text = decode_part dec sub in
      if text \<noteq> [] then text else decode_parts dec subs)"

text \<open>
  \<^verbatim>\<open>base64.urlsafe_b64decode(data.encode()).decode("utf-8", errors="replace")\<close>, after
  the library. \<^verbatim>\<open>encode\<close> raises on a surrogate; the decoder skips every byte outside
  its alphabet (a character beyond ASCII encodes to such bytes), stops at a complete
  padding and raises when the data characters do not fill their last group of 4.
\<close>

definition b64_value :: "pychar \<Rightarrow> nat option" where
  "b64_value c =
     (if 65 \<le> c \<and> c \<le> 90 then Some (c - 65)
      else if 97 \<le> c \<and> c \<le> 122 then Some (c - 71)
      else if 48 \<le> c \<and> c \<le> 57 then Some (c + 4)
      else if c = 43 \<or> c = 45 then Some 62
      else if c = 47 \<or> c = 95 then Some 63
      else None)"

fun a2b_base64 :: "nat \<Rightarrow> nat \<Rightarrow> nat \<Rightarrow> nat list \<Rightarrow> pystr \<Rightarrow> nat list option" where
  "a2b_base64 quad_pos leftchar pads out [] = (if quad_pos \<noteq> 0 then None else Some out)"
| "a2b_base64 quad_pos leftchar pads out (c # cs) =
     (if c = 61
      then (if 2 \<le> quad_pos \<and> 4 \<le> quad_pos + Suc pads then Some out
            else a2b_base64 quad_pos leftchar (if 2 \<le> quad_pos then Suc pads else pads) out cs)
      else (case b64_value c of
              None \<Rightarrow> a2b_base64 quad_pos leftchar pads out cs
            | Some v \<Rightarrow>
                if quad_pos = 0 then a2b_base64 1 v 0 out cs
                else if quad_pos = 1
                then a2b_base64 2 (v mod 16) 0 (out @ [leftchar * 4 + v div 16]) cs
                else if quad_pos = 2
                then a2b_base64 3 (v mod 4) 0 (out @ [leftchar * 16 + v div 4]) cs
                else a2b_base64 0 0 0 (out @ [leftchar * 64 + v]) cs))"

definition b64_text :: "library \<Rightarrow> pystr \<Rightarrow> pystr option" where
  "b64_text L d =
     (if list_ex (\<lambda>c. 55296 \<le> c \<and> c \<le> 57343) d then None
      else (case a2b_base64 0 0 0 [] d of
              None \<Rightarrow> None
            | Some bytes \<Rightarrow>
                Some (if list_all (\<lambda>b. b < 128) bytes then bytes else utf8_replace L bytes)))"





text \<open>
  In a raw Gmail message a key of a dict is missing, holds \<^verbatim>\<open>null\<close> (\<^verbatim>\<open>None\<close>), or holds
  a value of the type the Gmail API gives it. \<open>field_or f x\<close> is \<^verbatim>\<open>d.get(k, x) or x\<close>
  for a key whose missing, null and empty forms all stand for \<open>x\<close>.
\<close>

datatype 'a field = Absent | Null | Value 'a

fun field_or :: "'a field \<Rightarrow> 'a \<Rightarrow> 'a" where
  "field_or Absent x = x"
| "field_or Null x = x"
| "field_or (Value v) x = v"

text \<open>
  A raw MIME part: its \<^verbatim>\<open>mimeType\<close>, its \<^verbatim>\<open>body\<close> (a dict with the key \<^verbatim>\<open>data\<close>) and
  its \<^verbatim>\<open>parts\<close>. \<^verbatim>\<open>_decode_part\<close>, lines 122 to 138, on such a part:
  \<^item> line 125 calls \<^verbatim>\<open>get\<close> on the body, which raises \<^verbatim>\<open>AttributeError\<close> when the body
    is null;
  \<^item> line 126 calls \<^verbatim>\<open>startswith\<close> on the MIME type when the data is not empty and
    the type is not \<^verbatim>\<open>"text/plain"\<close>, which raises \<^verbatim>\<open>AttributeError\<close> when the type is
    null;
  \<^item> line 134 iterates the parts, which raises \<^verbatim>\<open>TypeError\<close> when they are null;
  \<^item> an exception of a sub-part is not caught.
  The depth of the tree is not bounded here, as if the interpreter had no recursion
  limit.
\<close>

datatype raw_part = RawPart "pystr field" "pystr field field" "raw_part list field"

fun body_data :: "pystr field field \<Rightarrow> pystr" where
  "body_data (Value (Value d)) = d"
| "body_data b = []"

fun decode_part_raw :: "(pystr \<Rightarrow> pystr option) \<Rightarrow> raw_part \<Rightarrow> error + pystr"
  and decode_parts_raw :: "(pystr \<Rightarrow> pystr option) \<Rightarrow> raw_part list \<Rightarrow> error + pystr" where
  "decode_part_raw dec (RawPart mime_type body parts) =
     (if body = Null then Inl AttributeError
      else if body_data body \<noteq> [] \<and> mime_type = Null then Inl AttributeError
      else if body_data body \<noteq> [] \<and> textual (field_or mime_type [])
      then Inr (case dec (body_data body) of None \<Rightarrow> [] | Some text \<Rightarrow> text)
      else (case parts of
              Absent \<Rightarrow> Inr []
            | Null \<Rightarrow> Inl TypeError
            | Value subs \<Rightarrow> decode_parts_raw dec subs))"
| "decode_parts_raw dec [] = Inr []"
| "decode_parts_raw dec (sub # subs) =
     (case decode_part_raw dec sub of
        Inl e \<Rightarrow> Inl e
      | Inr text \<Rightarrow> if text \<noteq> [] then Inr text else decode_parts_raw dec subs)"

text \<open>
  A part of the datatype \<open>part\<close> as a raw part: nothing in it is null. On such a part
  \<open>decode_part_raw\<close> returns what \<open>decode_part\<close> returns.
\<close>

fun raw_of :: "part \<Rightarrow> raw_part" where
  "raw_of (Part mime_type data parts) =
     RawPart (Value mime_type)
       (Value (case data of None \<Rightarrow> Absent | Some d \<Rightarrow> Value d))
       (Value (map raw_of parts))"













text \<open>
  A value of the library parameter for closed examples. The examples below use ASCII
  payloads and never reach the reply parser's, the HTML parser's or the clock's
  answer.
\<close>

definition plain_library :: library where
  "plain_library =
     \<lparr>parse_reply = (\<lambda>s. s), get_text = (\<lambda>s. s), utf8_replace = (\<lambda>bs. bs),
      to_int = (\<lambda>s. None), parsedate_ms = (\<lambda>s. None), now_ms = 0\<rparr>"

section \<open>The search of the part tree, as a specification\<close>

text \<open>
  A part is a hit when its MIME type is textual and its payload data is present;
  \<open>decoded\<close> is what decoding its data gives, a failure being the empty string.
  \<open>preorder\<close> lists a tree in pre-order; \<open>visited\<close> does the same but does not go
  below a hit.
\<close>

fun hit :: "part \<Rightarrow> bool" where
  "hit (Part mime_type None parts) = False"
| "hit (Part mime_type (Some d) parts) = (d \<noteq> [] \<and> textual mime_type)"

fun decoded :: "(pystr \<Rightarrow> pystr option) \<Rightarrow> part \<Rightarrow> pystr" where
  "decoded dec (Part mime_type None parts) = []"
| "decoded dec (Part mime_type (Some d) parts) = (case dec d of None \<Rightarrow> [] | Some t \<Rightarrow> t)"

fun preorder :: "part \<Rightarrow> part list"
  and preorder_list :: "part list \<Rightarrow> part list" where
  "preorder (Part mime_type data parts) = Part mime_type data parts # preorder_list parts"
| "preorder_list [] = []"
| "preorder_list (p # ps) = preorder p @ preorder_list ps"

fun visited :: "part \<Rightarrow> part list"
  and visited_list :: "part list \<Rightarrow> part list" where
  "visited (Part mime_type data parts) =
     Part mime_type data parts #
       (if hit (Part mime_type data parts) then [] else visited_list parts)"
| "visited_list [] = []"
| "visited_list (p # ps) = visited p @ visited_list ps"

text \<open>
  The search as the specification words it: the decoded content of the first hit in
  pre-order, whatever the decoding gives.
\<close>

definition first_hit_claimed :: "(pystr \<Rightarrow> pystr option) \<Rightarrow> part \<Rightarrow> pystr" where
  "first_hit_claimed dec p =
     (case find hit (preorder p) of None \<Rightarrow> [] | Some q \<Rightarrow> decoded dec q)"

section \<open>Well-typed raw action entries\<close>



section \<open>The entries of the Item Normalizer, as a specification\<close>

text \<open>
  What an entry of the input carries, in the words of the specification: the title of
  a plain string is the string; the title of a structured entry is read from its title
  field, falling back to the task alias; anything else has no title. The importance is
  2 for a plain string and the validated importance field for a structured entry.
\<close>

fun str_of :: "pyval \<Rightarrow> pystr" where
  "str_of (PStr s) = s"
| "str_of v = []"

fun entry_title :: "pyval \<Rightarrow> pystr" where
  "entry_title (PStr s) = s"
| "entry_title (PDict d) =
     (if str_of (dict_get d (S ''title'')) \<noteq> [] then str_of (dict_get d (S ''title''))
      else str_of (dict_get d (S ''task'')))"
| "entry_title v = []"

fun entry_importance :: "unicode \<Rightarrow> pyval \<Rightarrow> pyval" where
  "entry_importance U (PDict d) = normalize_importance U (dict_get d (S ''importance''))"
| "entry_importance U v = PInt 2"

section \<open>Properties of the Item Normalizer\<close>

lemma S_title_neq: "S ''importance'' \<noteq> S ''title''" by (simp add: S_def)

lemma rstrip_prefix: "\<exists>zs. t = rstrip t @ zs"
  unfolding rstrip_def by (metis rev_append rev_rev_ident takeWhile_dropWhile_id)

lemma lstrip_rstrip_aux:
  assumes h: "t = [] \<or> \<not> isspace (hd t)"
  shows "dropWhile isspace (rstrip t) = rstrip t"
proof (cases "rstrip t")
  case Nil then show ?thesis by simp
next
  case (Cons a as)
  obtain zs where z: "t = rstrip t @ zs" using rstrip_prefix by blast
  then have "t = a # as @ zs" using Cons by simp
  then have "\<not> isspace a" using h by auto
  then show ?thesis using Cons by simp
qed

lemma lstrip_rstrip: "lstrip (rstrip (lstrip s)) = rstrip (lstrip s)"
  unfolding lstrip_def by (rule lstrip_rstrip_aux) (metis hd_dropWhile)

lemma rstrip_idem: "rstrip (rstrip s) = rstrip s"
  by (simp add: rstrip_def)

lemma strip_idem: "strip (strip s) = strip s"
  by (simp add: strip_def lstrip_rstrip rstrip_idem)

lemma normalize_importance_canon:
  "case normalize_importance U v of PInt i \<Rightarrow> 0 \<le> i \<and> i \<le> 3 | PBool b \<Rightarrow> True | _ \<Rightarrow> False"
  by (cases v) (auto simp: normalize_importance_def Let_def)

lemma normalize_importance_fix:
  "(case v of PInt i \<Rightarrow> 0 \<le> i \<and> i \<le> 3 | PBool b \<Rightarrow> True | _ \<Rightarrow> False) \<Longrightarrow> normalize_importance U v = v"
  by (cases v) (auto simp: normalize_importance_def Let_def)

lemma normalize_entry_canonical:
  "normalize_entry U it = Inr ns \<Longrightarrow> list_all canonical ns"
  using normalize_importance_canon[of U]
  by (cases it) (auto simp: Let_def canonical_def strip_idem split: if_splits pyval.splits)

lemma normalize_loop_canonical:
  "normalize_loop U items = Inr norm \<Longrightarrow> list_all canonical norm"
  by (induction items arbitrary: norm)
     (auto split: sum.splits dest: normalize_entry_canonical)

lemma normalize_entry_as_dict:
  "canonical n \<Longrightarrow> normalize_entry U (as_dict n) = Inr [n]"
  by (cases n) (auto simp: as_dict_def canonical_def dict_get_def py_or_def S_title_neq Let_def normalize_importance_fix)

lemma normalize_loop_as_dict:
  "list_all canonical ns \<Longrightarrow> normalize_loop U (map as_dict ns) = Inr ns"
  by (induction ns) (auto simp: normalize_entry_as_dict)

lemma dedupe_subset: "set (dedupe U seen ns) \<subseteq> set ns"
  by (induction ns arbitrary: seen) (auto simp: Let_def)

lemma dedupe_idem: "seen' \<subseteq> seen \<Longrightarrow> dedupe U seen' (dedupe U seen ns) = dedupe U seen ns"
proof (induction ns arbitrary: seen seen')
  case Nil then show ?case by simp
next
  case (Cons n ns)
  show ?case
  proof (cases "lower U (fst n) \<in> seen")
    case True then show ?thesis using Cons by (simp add: Let_def)
  next
    case False
    then have "lower U (fst n) \<notin> seen'" using Cons.prems by blast
    moreover have "insert (lower U (fst n)) seen' \<subseteq> insert (lower U (fst n)) seen" using Cons.prems by blast
    ultimately show ?thesis using False Cons.IH by (simp add: Let_def)
  qed
qed

text \<open>
  C8. \<^verbatim>\<open>normalize_items\<close> is idempotent: when it returns the list \<open>out\<close>, applying it
  to \<open>out\<close> (the same list of dicts) returns \<open>out\<close> again, with the same titles,
  importances and order.
\<close>

theorem normalize_items_idempotent:
  "normalize_items U items = Inr out \<Longrightarrow> normalize_items U (map as_dict out) = Inr out"
proof -
  assume a: "normalize_items U items = Inr out"
  then obtain norm where n: "normalize_loop U items = Inr norm" and o: "out = dedupe U {} norm"
    by (auto simp: normalize_items_def split: sum.splits)
  have "list_all canonical norm" using n by (rule normalize_loop_canonical)
  then have "list_all canonical out" using dedupe_subset[of U "{}" norm] o
    by (auto simp: list_all_iff)
  then have "normalize_loop U (map as_dict out) = Inr out" by (rule normalize_loop_as_dict)
  moreover have "dedupe U {} out = out" unfolding o by (rule dedupe_idem) simp
  ultimately show ?thesis by (simp add: normalize_items_def)
qed


theorem normalize_items_idempotent_witness:
  "normalize_items ascii_tables [PStr (S '' Pay rent ''), PStr (S ''pay RENT'')]
     = Inr [(S ''Pay rent'', PInt 2)] \<and>
   normalize_items ascii_tables (map as_dict [(S ''Pay rent'', PInt 2)])
     = Inr [(S ''Pay rent'', PInt 2)]"
proof -
  have h: "normalize_items ascii_tables [PStr (S '' Pay rent ''), PStr (S ''pay RENT'')]
     = Inr [(S ''Pay rent'', PInt 2)]"
    by (simp add: normalize_items_def S_def strip_def lstrip_def rstrip_def isspace_def
        Let_def lower_def lower_ascii_def)
  show ?thesis using h normalize_items_idempotent [OF h] by simp
qed

lemma dedupe_snoc:
  "dedupe U seen (xs @ [x]) =
     dedupe U seen xs @
       (if lower U (fst x) \<in> seen \<union> (\<lambda>n. lower U (fst n)) ` set xs then [] else [x])"
  by (induction xs arbitrary: seen) (auto simp: Let_def)

lemma normalize_entry_spec:
  "normalize_entry U it = Inr ns \<Longrightarrow>
   ns = (if strip (entry_title it) \<noteq> []
         then [(strip (entry_title it), entry_importance U it)] else [])"
proof (cases it)
  case (PDict d)
  assume r: "normalize_entry U it = Inr ns"
  let ?v1 = "dict_get d (S ''title'')" and ?v2 = "dict_get d (S ''task'')"
  obtain t where t: "py_or ?v1 (py_or ?v2 (PStr [])) = PStr t"
    using r PDict by (auto split: pyval.splits)
  have "entry_title it = t"
  proof (cases "truthy ?v1")
    case True
    then show ?thesis using t PDict by (cases ?v1) (auto simp: py_or_def)
  next
    case False
    then have a: "str_of ?v1 = []" by (cases ?v1) auto
    have "str_of ?v2 = t"
      using t False by (cases ?v2) (auto simp: py_or_def split: if_splits)
    then show ?thesis using a PDict by simp
  qed
  then show ?thesis using r t PDict by (auto simp: Let_def split: if_splits)
qed (auto simp: Let_def strip_def lstrip_def rstrip_def split: if_splits)

lemma normalize_loop_spec:
  "normalize_loop U items = Inr norm \<Longrightarrow>
   norm = filter (\<lambda>n. fst n \<noteq> [])
            (map (\<lambda>it. (strip (entry_title it), entry_importance U it)) items)"
proof (induction items arbitrary: norm)
  case Nil
  then show ?case by simp
next
  case (Cons it items)
  then obtain ns rest where ns: "normalize_entry U it = Inr ns"
      and rest: "normalize_loop U items = Inr rest" and n: "norm = ns @ rest"
    by (auto split: sum.splits)
  show ?case
    using normalize_entry_spec [OF ns] Cons.IH [OF rest] n by simp
qed

lemma dedupe_filter_index:
  "dedupe U seen (filter (\<lambda>n. fst n \<noteq> []) xs) =
     map ((!) xs)
       (filter (\<lambda>i. fst (xs ! i) \<noteq> [] \<and> lower U (fst (xs ! i)) \<notin> seen \<and>
                     (\<forall>j<i. fst (xs ! j) \<noteq> [] \<longrightarrow>
                              lower U (fst (xs ! j)) \<noteq> lower U (fst (xs ! i))))
          [0..<length xs])"
proof (induction xs rule: rev_induct)
  case Nil
  then show ?case by simp
next
  case (snoc x xs)
  let ?k = "\<lambda>n. lower U (fst n)"
  let ?ne = "\<lambda>n::action_item. fst n \<noteq> []"
  let ?P = "\<lambda>ys i. ?ne (ys ! i) \<and> ?k (ys ! i) \<notin> seen \<and>
                     (\<forall>j<i. ?ne (ys ! j) \<longrightarrow> ?k (ys ! j) \<noteq> ?k (ys ! i))"
  have f: "filter (?P (xs @ [x])) [0..<length xs] = filter (?P xs) [0..<length xs]"
    by (rule filter_cong) (auto simp: nth_append)
  have m: "map ((!) (xs @ [x])) (filter (?P xs) [0..<length xs])
         = map ((!) xs) (filter (?P xs) [0..<length xs])"
    by (rule map_cong) (auto simp: nth_append)
  have l: "?P (xs @ [x]) (length xs) \<longleftrightarrow>
           ?ne x \<and> \<not> (?k x \<in> seen \<union> ?k ` set (filter ?ne xs))"
  proof -
    have "(\<forall>j<length xs. ?ne (xs ! j) \<longrightarrow> ?k (xs ! j) \<noteq> ?k x)
          \<longleftrightarrow> ?k x \<notin> ?k ` set (filter ?ne xs)"
    proof
      assume a: "\<forall>j<length xs. ?ne (xs ! j) \<longrightarrow> ?k (xs ! j) \<noteq> ?k x"
      show "?k x \<notin> ?k ` set (filter ?ne xs)"
      proof
        assume "?k x \<in> ?k ` set (filter ?ne xs)"
        then obtain n where n: "n \<in> set xs" "?ne n" "?k n = ?k x" by auto
        then obtain j where "j < length xs" "xs ! j = n" by (auto simp: in_set_conv_nth)
        then show False using a n by auto
      qed
    next
      assume b: "?k x \<notin> ?k ` set (filter ?ne xs)"
      show "\<forall>j<length xs. ?ne (xs ! j) \<longrightarrow> ?k (xs ! j) \<noteq> ?k x"
      proof (intro allI impI)
        fix j assume "j < length xs" "?ne (xs ! j)"
        then have "xs ! j \<in> set (filter ?ne xs)" by simp
        then have "?k (xs ! j) \<in> ?k ` set (filter ?ne xs)" by (rule imageI)
        then show "?k (xs ! j) \<noteq> ?k x" using b by metis
      qed
    qed
    then show ?thesis by (simp add: nth_append)
  qed
  show ?case
  proof (cases "?ne x")
    case True
    then show ?thesis
      using snoc.IH f m l by (simp add: dedupe_snoc nth_append)
  next
    case False
    then show ?thesis
      using snoc.IH f m l by (simp add: nth_append)
  qed
qed

lemma normalize_items_spec:
  assumes "normalize_items U items = Inr out"
  shows "out =
     map (\<lambda>i. (strip (entry_title (items ! i)), entry_importance U (items ! i)))
       (filter (\<lambda>i. strip (entry_title (items ! i)) \<noteq> [] \<and>
                     (\<forall>j<i. strip (entry_title (items ! j)) \<noteq> [] \<longrightarrow>
                        lower U (strip (entry_title (items ! j)))
                          \<noteq> lower U (strip (entry_title (items ! i)))))
          [0..<length items])"
proof -
  let ?c = "\<lambda>it. (strip (entry_title it), entry_importance U it)"
  let ?xs = "map ?c items"
  obtain norm where n: "normalize_loop U items = Inr norm" and o: "out = dedupe U {} norm"
    using assms by (auto simp: normalize_items_def split: sum.splits)
  have "norm = filter (\<lambda>n. fst n \<noteq> []) ?xs" using normalize_loop_spec [OF n] .
  then have "out = map ((!) ?xs)
       (filter (\<lambda>i. fst (?xs ! i) \<noteq> [] \<and> lower U (fst (?xs ! i)) \<notin> {} \<and>
                     (\<forall>j<i. fst (?xs ! j) \<noteq> [] \<longrightarrow>
                              lower U (fst (?xs ! j)) \<noteq> lower U (fst (?xs ! i))))
          [0..<length ?xs])"
    using o dedupe_filter_index [of U "{}" ?xs] by simp
  also have "\<dots> = map ((!) ?xs)
       (filter (\<lambda>i. strip (entry_title (items ! i)) \<noteq> [] \<and>
                     (\<forall>j<i. strip (entry_title (items ! j)) \<noteq> [] \<longrightarrow>
                        lower U (strip (entry_title (items ! j)))
                          \<noteq> lower U (strip (entry_title (items ! i)))))
          [0..<length items])"
  proof -
    have "filter (\<lambda>i. fst (?xs ! i) \<noteq> [] \<and> lower U (fst (?xs ! i)) \<notin> {} \<and>
                     (\<forall>j<i. fst (?xs ! j) \<noteq> [] \<longrightarrow>
                              lower U (fst (?xs ! j)) \<noteq> lower U (fst (?xs ! i))))
          [0..<length ?xs]
        = filter (\<lambda>i. strip (entry_title (items ! i)) \<noteq> [] \<and>
                     (\<forall>j<i. strip (entry_title (items ! j)) \<noteq> [] \<longrightarrow>
                        lower U (strip (entry_title (items ! j)))
                          \<noteq> lower U (strip (entry_title (items ! i)))))
          [0..<length items]"
      by (rule filter_cong) auto
    then show ?thesis by simp
  qed
  also have "\<dots> = map (\<lambda>i. ?c (items ! i))
       (filter (\<lambda>i. strip (entry_title (items ! i)) \<noteq> [] \<and>
                     (\<forall>j<i. strip (entry_title (items ! j)) \<noteq> [] \<longrightarrow>
                        lower U (strip (entry_title (items ! j)))
                          \<noteq> lower U (strip (entry_title (items ! i)))))
          [0..<length items])"
    by (rule map_cong) auto
  finally show ?thesis .
qed

text \<open>
  C3. \<^verbatim>\<open>normalize_items\<close> removes duplicates by the lowercase of the trimmed title of
  the input entries: it returns, in input order, the trimmed title and the importance
  of exactly those entries whose trimmed title is not empty and is not, in lowercase,
  the trimmed title of an earlier entry; a later duplicate is dropped together with
  its importance. In particular
  \<^verbatim>\<open>normalize_items(["Book flight", {"title": "book flight", "importance": "high"}])\<close>
  is \<^verbatim>\<open>[{"title": "Book flight", "importance": 2}]\<close>.
\<close>

theorem normalize_items_dedup:
  "normalize_items U
     [PStr (S ''Book flight''),
      PDict [(S ''title'', PStr (S ''book flight'')), (S ''importance'', PStr (S ''high''))]]
     = Inr [(S ''Book flight'', PInt 2)] \<and>
   (normalize_items U items = Inr out \<longrightarrow>
    out =
      map (\<lambda>i. (strip (entry_title (items ! i)), entry_importance U (items ! i)))
        (filter (\<lambda>i. strip (entry_title (items ! i)) \<noteq> [] \<and>
                      (\<forall>j<i. strip (entry_title (items ! j)) \<noteq> [] \<longrightarrow>
                         lower U (strip (entry_title (items ! j)))
                           \<noteq> lower U (strip (entry_title (items ! i)))))
           [0..<length items]))"
proof
  show "normalize_items U
     [PStr (S ''Book flight''),
      PDict [(S ''title'', PStr (S ''book flight'')), (S ''importance'', PStr (S ''high''))]]
     = Inr [(S ''Book flight'', PInt 2)]"
    by (simp add: normalize_items_def S_def strip_def lstrip_def rstrip_def isspace_def
        dict_get_def py_or_def Let_def normalize_importance_def importance_label_def
        lower_def lower_ascii_def)
next
  show "normalize_items U items = Inr out \<longrightarrow>
    out =
      map (\<lambda>i. (strip (entry_title (items ! i)), entry_importance U (items ! i)))
        (filter (\<lambda>i. strip (entry_title (items ! i)) \<noteq> [] \<and>
                      (\<forall>j<i. strip (entry_title (items ! j)) \<noteq> [] \<longrightarrow>
                         lower U (strip (entry_title (items ! j)))
                           \<noteq> lower U (strip (entry_title (items ! i)))))
           [0..<length items])"
    using normalize_items_spec by blast
qed

theorem normalize_items_dedup_witness:
  "normalize_items ascii_tables
     [PStr (S ''Book flight''),
      PDict [(S ''title'', PStr (S '' book FLIGHT '')), (S ''importance'', PStr (S ''high''))],
      PStr (S '' Pay rent '')]
     = Inr [(S ''Book flight'', PInt 2), (S ''Pay rent'', PInt 2)] \<and>
   [(S ''Book flight'', PInt 2), (S ''Pay rent'', PInt 2)] =
     map (\<lambda>i. (strip (entry_title
                 ([PStr (S ''Book flight''),
                   PDict [(S ''title'', PStr (S '' book FLIGHT '')),
                          (S ''importance'', PStr (S ''high''))],
                   PStr (S '' Pay rent '')] ! i)),
               entry_importance ascii_tables
                 ([PStr (S ''Book flight''),
                   PDict [(S ''title'', PStr (S '' book FLIGHT '')),
                          (S ''importance'', PStr (S ''high''))],
                   PStr (S '' Pay rent '')] ! i)))
       (filter (\<lambda>i. strip (entry_title
                 ([PStr (S ''Book flight''),
                   PDict [(S ''title'', PStr (S '' book FLIGHT '')),
                          (S ''importance'', PStr (S ''high''))],
                   PStr (S '' Pay rent '')] ! i)) \<noteq> [] \<and>
                 (\<forall>j<i. strip (entry_title
                     ([PStr (S ''Book flight''),
                       PDict [(S ''title'', PStr (S '' book FLIGHT '')),
                              (S ''importance'', PStr (S ''high''))],
                       PStr (S '' Pay rent '')] ! j)) \<noteq> [] \<longrightarrow>
                    lower ascii_tables (strip (entry_title
                     ([PStr (S ''Book flight''),
                       PDict [(S ''title'', PStr (S '' book FLIGHT '')),
                              (S ''importance'', PStr (S ''high''))],
                       PStr (S '' Pay rent '')] ! j)))
                    \<noteq> lower ascii_tables (strip (entry_title
                     ([PStr (S ''Book flight''),
                       PDict [(S ''title'', PStr (S '' book FLIGHT '')),
                              (S ''importance'', PStr (S ''high''))],
                       PStr (S '' Pay rent '')] ! i)))))
          [0..<length
                 [PStr (S ''Book flight''),
                  PDict [(S ''title'', PStr (S '' book FLIGHT '')),
                         (S ''importance'', PStr (S ''high''))],
                  PStr (S '' Pay rent '')]])"
proof -
  have h: "normalize_items ascii_tables
     [PStr (S ''Book flight''),
      PDict [(S ''title'', PStr (S '' book FLIGHT '')), (S ''importance'', PStr (S ''high''))],
      PStr (S '' Pay rent '')]
     = Inr [(S ''Book flight'', PInt 2), (S ''Pay rent'', PInt 2)]"
    by (simp add: normalize_items_def S_def strip_def lstrip_def rstrip_def isspace_def
        dict_get_def py_or_def Let_def normalize_importance_def importance_label_def
        lower_def lower_ascii_def)
  show ?thesis
    using h
      normalize_items_dedup [of ascii_tables _
        "[(S ''Book flight'', PInt 2), (S ''Pay rent'', PInt 2)]"]
    by blast
qed


lemmas str_defs = S_def isspace_def strip_def lstrip_def rstrip_def lower_def lower_ascii_def
lemmas seg_defs = split_sentences_def url_match_def after_prefix_def terminal_def replace_cr_def Let_def
lemmas body_defs = body_text_def splitlines_def is_linebreak_def sig_line_def quoted_line_def
lemmas cand_defs = is_candidate_def endswith_def quoted_line_def opener_match_def
  word_then_boundary_def after_prefix_def boundary_def word_at_def is_word_def header_match_def
  ACTION_TRIGGERS_def Let_def


section \<open>Properties of the orchestrator\<close>

text \<open>
  C1, amended. When the summary result's \<^verbatim>\<open>action_items\<close> is a list whose normalized
  form is not the empty list, \<^verbatim>\<open>extract_actions\<close> returns exactly that normalized
  form (or raises as \<^verbatim>\<open>normalize_items\<close> does), whatever the body is. A non-empty list
  whose entries all normalize away is treated like an empty one: the body is searched.
\<close>

theorem extract_actions_precedence:
  assumes "dict_get summary_json (S ''action_items'') = PList items"
    and "normalize_items U items \<noteq> Inr []"
  shows "extract_actions U summary_json body = normalize_items U items"
proof -
  have "items \<noteq> []" using assms(2) by (auto simp: normalize_items_def)
  then have "py_or (dict_get summary_json (S ''action_items'')) (PList []) = PList items"
    using assms(1) by (simp add: py_or_def)
  then show ?thesis using assms(2)
    by (cases "normalize_items U items") (simp_all add: extract_actions_def normalize_value_def)
qed

lemma c1_norm: "normalize_items U [PStr (S '' ''), PDict [(S ''importance'', PInt 3)]] = Inr []"
  by (simp add: normalize_items_def str_defs dict_get_def py_or_def)

lemma c1_text: "body_text (S ''Please send the report.'') = S ''Please send the report.''"
  by (simp add: str_defs body_defs after_prefix_def)

lemma c1_split: "split_sentences (S ''Please send the report.'') = [S ''Please send the report.'']"
  by (simp add: str_defs seg_defs)

lemma c1_cand: "is_candidate U (S ''Please send the report.'')"
  by (simp add: cand_defs str_defs)

lemma c1_imp: "importance_from_text U (S ''Please send the report.'') = 2"
  by (simp add: importance_from_text_def Let_def HIGH_HINTS_def str_defs)

lemma c1_renorm: "normalize_items U [as_dict (S ''Please send the report.'', PInt 2)]
   = Inr [(S ''Please send the report.'', PInt 2)]"
  by (simp add: normalize_items_def as_dict_def str_defs dict_get_def py_or_def normalize_importance_def Let_def)

lemma c1_fallback: "fallback_extract_from_body U (S ''Please send the report.'')
   = Inr [(S ''Please send the report.'', PInt 2)]"
proof -
  have "fallback_items U (S ''Please send the report.'') = [(S ''Please send the report.'', PInt 2)]"
    by (simp add: fallback_items_def c1_text c1_split c1_cand c1_imp Let_def)
  moreover have "S ''Please send the report.'' \<noteq> []" by (simp add: S_def)
  ultimately show ?thesis by (simp add: fallback_extract_from_body_def c1_renorm)
qed

theorem extract_actions_precedence_witness:
  "dict_get [(S ''action_items'', PList [PStr (S ''Pay rent'')])] (S ''action_items'')
     = PList [PStr (S ''Pay rent'')] \<and>
   normalize_items ascii_tables [PStr (S ''Pay rent'')] \<noteq> Inr [] \<and>
   extract_actions ascii_tables [(S ''action_items'', PList [PStr (S ''Pay rent'')])]
     (S ''Please send the report.'')
     = normalize_items ascii_tables [PStr (S ''Pay rent'')]"
proof -
  have a: "dict_get [(S ''action_items'', PList [PStr (S ''Pay rent'')])] (S ''action_items'')
     = PList [PStr (S ''Pay rent'')]"
    by (simp add: dict_get_def)
  have b: "normalize_items ascii_tables [PStr (S ''Pay rent'')] \<noteq> Inr []"
    by (simp add: normalize_items_def str_defs)
  show ?thesis
    using a b extract_actions_precedence [OF a b, of "S ''Please send the report.''"] by simp
qed

text \<open>
  C1 as stated fails: the list below is not empty, both entries are malformed (a blank
  string, a dict without a title) and normalize away, and the result comes from the body.
\<close>

theorem extract_actions_precedence_counterexample:
  "extract_actions ascii_tables
     [(S ''action_items'', PList [PStr (S '' ''), PDict [(S ''importance'', PInt 3)]])]
     (S ''Please send the report.'')
   \<noteq> normalize_items ascii_tables [PStr (S '' ''), PDict [(S ''importance'', PInt 3)]]"
proof -
  have k: "dict_get [(S ''action_items'', PList [PStr (S '' ''), PDict [(S ''importance'', PInt 3)]])]
      (S ''action_items'') = PList [PStr (S '' ''), PDict [(S ''importance'', PInt 3)]]"
    by (simp add: dict_get_def)
  have "extract_actions ascii_tables
     [(S ''action_items'', PList [PStr (S '' ''), PDict [(S ''importance'', PInt 3)]])]
     (S ''Please send the report.'') = Inr [(S ''Please send the report.'', PInt 2)]"
    by (simp add: extract_actions_def k py_or_def normalize_value_def c1_norm c1_fallback)
  then show ?thesis by (simp add: c1_norm)
qed

lemma scenario1_text:
  "body_text (S ''Please review the attached doc by Friday. Thanks.'')
     = S ''Please review the attached doc by Friday. Thanks.''"
  by (simp add: str_defs body_defs after_prefix_def)

lemma scenario1_split:
  "split_sentences (S ''Please review the attached doc by Friday. Thanks.'')
     = [S ''Please review the attached doc by Friday.'', S ''Thanks.'']"
  by (simp add: str_defs seg_defs)

lemma scenario1_first: "is_candidate U (S ''Please review the attached doc by Friday.'')"
  by (simp add: cand_defs str_defs)

lemma scenario1_second: "\<not> is_candidate U (S ''Thanks.'')"
  by (simp add: is_candidate_def S_def Let_def)

lemma scenario1_importance:
  "importance_from_text U (S ''Please review the attached doc by Friday.'') = 2"
  by (simp add: importance_from_text_def Let_def HIGH_HINTS_def str_defs)

lemma scenario1_renorm:
  "normalize_items U [as_dict (S ''Please review the attached doc by Friday.'', PInt 2)]
     = Inr [(S ''Please review the attached doc by Friday.'', PInt 2)]"
  by (simp add: normalize_items_def as_dict_def str_defs dict_get_def py_or_def
      normalize_importance_def Let_def)

lemma scenario1_fallback:
  "fallback_extract_from_body U (S ''Please review the attached doc by Friday. Thanks.'')
     = Inr [(S ''Please review the attached doc by Friday.'', PInt 2)]"
proof -
  have "fallback_items U (S ''Please review the attached doc by Friday. Thanks.'')
      = [(S ''Please review the attached doc by Friday.'', PInt 2)]"
    by (simp add: fallback_items_def scenario1_text scenario1_split scenario1_first
        scenario1_second scenario1_importance Let_def)
  moreover have "S ''Please review the attached doc by Friday. Thanks.'' \<noteq> []"
    by (simp add: S_def)
  ultimately show ?thesis by (simp add: fallback_extract_from_body_def scenario1_renorm)
qed

text \<open>
  C4, amended. For the body \<^verbatim>\<open>Please review the attached doc by Friday. Thanks.\<close> and
  no model-supplied action items, extraction yields exactly one item, with title
  \<^verbatim>\<open>Please review the attached doc by Friday.\<close> and importance 2: the sentence has none
  of the high-urgency hints. The second sentence is excluded (it has fewer than 8
  characters).
\<close>

theorem scenario1_importance_two:
  "extract_actions U [(S ''action_items'', PList [])]
     (S ''Please review the attached doc by Friday. Thanks.'')
     = Inr [(S ''Please review the attached doc by Friday.'', PInt 2)] \<and>
   extract_actions U [] (S ''Please review the attached doc by Friday. Thanks.'')
     = Inr [(S ''Please review the attached doc by Friday.'', PInt 2)]"
  by (simp add: extract_actions_def dict_get_def py_or_def normalize_value_def
      normalize_items_def scenario1_fallback)

text \<open>C4 as stated fails: the importance of the item is not 3.\<close>

theorem scenario1_importance_three_counterexample:
  "extract_actions ascii_tables [(S ''action_items'', PList [])]
     (S ''Please review the attached doc by Friday. Thanks.'')
     \<noteq> Inr [(S ''Please review the attached doc by Friday.'', PInt 3)]"
  by (simp add: extract_actions_def dict_get_def py_or_def normalize_value_def
      normalize_items_def scenario1_fallback)

section \<open>Properties of the Sentence Segmenter\<close>

lemma collapse_ws_spaces: "c \<in> set (collapse_ws t) \<Longrightarrow> isspace c \<Longrightarrow> c = 32"
  by (induction t rule: collapse_ws.induct) (auto split: if_splits)

lemma no_newline_left: "10 \<notin> set (replace_cr (collapse_ws t))"
proof
  assume "10 \<in> set (replace_cr (collapse_ws t))"
  then obtain c where c: "c \<in> set (collapse_ws t)" "c = 10 \<or> c = 13"
    by (auto simp: replace_cr_def split: if_splits)
  then have "isspace c" by (auto simp: isspace_def)
  then have "c = 32" using c(1) by (rule collapse_ws_spaces [rotated])
  then show False using c(2) by simp
qed

text \<open>
  C6. The segmenter is to split on a newline as well. It does not: line 55 turns every
  whitespace run, newlines included, into one space before line 58 looks for
  newlines, so \<^verbatim>\<open>"abcd\nefgh"\<close> comes out as the single sentence \<^verbatim>\<open>"abcd efgh"\<close>, and
  for every input no newline is left in the text that line 58 splits.
\<close>

theorem split_sentences_newline_not_cut:
  "split_sentences (S ''abcd'' @ [10] @ S ''efgh'') = [S ''abcd efgh''] \<and>
   10 \<notin> set (replace_cr (collapse_ws (url_sub [] t)))"
  using no_newline_left [of "url_sub [] t"] by (simp add: str_defs seg_defs)

section \<open>Properties of the heuristic extraction\<close>

lemma count_dropWhile: "count_list (dropWhile P s) c \<le> count_list s c"
  by (induction s) auto

lemma count_strip: "count_list (strip s) c \<le> count_list s c"
proof -
  have "count_list (strip s) c = count_list (dropWhile isspace (rev (dropWhile isspace s))) c"
    by (simp add: strip_def rstrip_def lstrip_def)
  also have "\<dots> \<le> count_list (rev (dropWhile isspace s)) c" by (rule count_dropWhile)
  also have "\<dots> = count_list (dropWhile isspace s) c" by simp
  also have "\<dots> \<le> count_list s c" by (rule count_dropWhile)
  finally show ?thesis .
qed

lemma is_candidate_at: "is_candidate U s \<Longrightarrow> count_list s 64 \<le> 2"
  by (auto simp: is_candidate_def Let_def split: if_splits)

lemma collect_titles: "fst ` set (collect U seen n ss) \<subseteq> set ss"
  by (induction ss arbitrary: seen n) (auto simp: Let_def)

lemma collect_nonempty: "ss \<noteq> [] \<Longrightarrow> collect U {} 0 ss \<noteq> []"
  by (cases ss) (auto simp: Let_def)

lemma normalize_entry_as_dict_total:
  "\<exists>ns. normalize_entry U (as_dict n) = Inr ns \<and> fst ` set ns \<subseteq> {strip (fst n)}"
  by (cases "fst n = []")
     (auto simp: as_dict_def dict_get_def py_or_def S_title_neq Let_def S_def strip_def lstrip_def rstrip_def)

lemma normalize_loop_as_dict_total:
  "\<exists>norm. normalize_loop U (map as_dict items) = Inr norm \<and>
          fst ` set norm \<subseteq> strip ` fst ` set items"
proof (induction items)
  case Nil
  then show ?case by simp
next
  case (Cons n items)
  obtain ns where ns: "normalize_entry U (as_dict n) = Inr ns" "fst ` set ns \<subseteq> {strip (fst n)}"
    using normalize_entry_as_dict_total by blast
  obtain norm where norm: "normalize_loop U (map as_dict items) = Inr norm"
      "fst ` set norm \<subseteq> strip ` fst ` set items"
    using Cons.IH by blast
  have "normalize_loop U (map as_dict (n # items)) = Inr (ns @ norm)"
    using ns(1) norm(1) by simp
  moreover have "fst ` set (ns @ norm) \<subseteq> strip ` fst ` set (n # items)"
    using ns(2) norm(2) by auto
  ultimately show ?case by blast
qed

lemma normalize_items_as_dict_total:
  "\<exists>out. normalize_items U (map as_dict items) = Inr out \<and>
         fst ` set out \<subseteq> strip ` fst ` set items"
proof -
  obtain norm where norm: "normalize_loop U (map as_dict items) = Inr norm"
      "fst ` set norm \<subseteq> strip ` fst ` set items"
    using normalize_loop_as_dict_total by blast
  have "set (dedupe U {} norm) \<subseteq> set norm" by (rule dedupe_subset)
  then have "fst ` set (dedupe U {} norm) \<subseteq> strip ` fst ` set items"
    using norm(2) by blast
  then show ?thesis using norm(1) by (simp add: normalize_items_def)
qed

text \<open>
  C7, amended. No sentence with more than 2 \<^verbatim>\<open>@\<close> characters passes the candidate
  filter, and whenever at least one sentence of the body passes the filter, no item of
  the heuristically extracted list has more than 2 \<^verbatim>\<open>@\<close> characters. (When no sentence
  passes, the first sentence of at least 6 words is taken without this check.)
\<close>

theorem footer_rejection:
  "(2 < count_list s 64 \<longrightarrow> \<not> is_candidate U s) \<and>
   (filter (is_candidate U) (split_sentences (body_text body)) \<noteq> [] \<longrightarrow>
    fallback_extract_from_body U body = Inr out \<longrightarrow>
    list_all (\<lambda>n. count_list (fst n) 64 \<le> 2) out)"
proof (intro conjI impI)
  assume "2 < count_list s 64"
  then show "\<not> is_candidate U s" using is_candidate_at [of U s] by auto
next
  let ?cands = "filter (is_candidate U) (split_sentences (body_text body))"
  assume ne: "?cands \<noteq> []" and out: "fallback_extract_from_body U body = Inr out"
  have items: "fallback_items U body = collect U {} 0 ?cands"
    using collect_nonempty [OF ne, of U] by (simp add: fallback_items_def Let_def)
  obtain out' where o: "normalize_items U (map as_dict (fallback_items U body)) = Inr out'"
      "fst ` set out' \<subseteq> strip ` fst ` set (fallback_items U body)"
    using normalize_items_as_dict_total by blast
  have sub: "fst ` set out \<subseteq> strip ` fst ` set (fallback_items U body)"
  proof (cases "body = []")
    case True
    then show ?thesis using out by (simp add: fallback_extract_from_body_def)
  next
    case False
    then show ?thesis using out o by (simp add: fallback_extract_from_body_def)
  qed
  show "list_all (\<lambda>n. count_list (fst n) 64 \<le> 2) out"
    unfolding list_all_iff
  proof
    fix n assume "n \<in> set out"
    then have "fst n \<in> strip ` fst ` set (fallback_items U body)"
      using sub by blast
    then obtain t where t: "t \<in> fst ` set (fallback_items U body)" "fst n = strip t"
      by (elim imageE) blast
    then have "t \<in> set ?cands" using items collect_titles [of U "{}" 0 ?cands] by auto
    then have "is_candidate U t" by simp
    then have "count_list t 64 \<le> 2" by (rule is_candidate_at)
    then show "count_list (fst n) 64 \<le> 2"
      using t(2) count_strip [of t 64] by simp
  qed
qed

theorem footer_rejection_witness:
  "2 < count_list (S ''a@b c@d e@f'') 64 \<and>
   \<not> is_candidate ascii_tables (S ''a@b c@d e@f'') \<and>
   filter (is_candidate ascii_tables) (split_sentences (body_text (S ''Please send the report.'')))
     \<noteq> [] \<and>
   fallback_extract_from_body ascii_tables (S ''Please send the report.'')
     = Inr [(S ''Please send the report.'', PInt 2)] \<and>
   list_all (\<lambda>n. count_list (fst n) 64 \<le> 2) [(S ''Please send the report.'', PInt (2::int))]"
proof -
  have a: "2 < count_list (S ''a@b c@d e@f'') 64" by (simp add: S_def)
  have b: "filter (is_candidate ascii_tables)
             (split_sentences (body_text (S ''Please send the report.''))) \<noteq> []"
    by (simp add: c1_text c1_split c1_cand)
  have c: "fallback_extract_from_body ascii_tables (S ''Please send the report.'')
     = Inr [(S ''Please send the report.'', PInt 2)]"
    by (rule c1_fallback)
  show ?thesis
    using a b c
      footer_rejection [of "S ''a@b c@d e@f''" ascii_tables "S ''Please send the report.''"
        "[(S ''Please send the report.'', PInt 2)]"]
    by blast
qed

text \<open>
  C7 as stated fails on the path it names: in the body below no sentence passes the
  filter, and the first sentence of at least 6 words, which has 3 \<^verbatim>\<open>@\<close> characters, is
  returned.
\<close>

lemma footer_text:
  "body_text (S ''a@b c@d e@f one two three'') = S ''a@b c@d e@f one two three''"
  by (simp add: str_defs body_defs after_prefix_def)

lemma footer_split:
  "split_sentences (S ''a@b c@d e@f one two three'') = [S ''a@b c@d e@f one two three'']"
  by (simp add: str_defs seg_defs)

lemma footer_not_candidate: "\<not> is_candidate U (S ''a@b c@d e@f one two three'')"
  by (simp add: is_candidate_def S_def Let_def)

lemma footer_words: "length (split_ws (S ''a@b c@d e@f one two three'')) = 6"
  by (simp add: split_ws_def S_def isspace_def)

lemma footer_renorm:
  "normalize_items U [as_dict (S ''a@b c@d e@f one two three'', PInt 2)]
     = Inr [(S ''a@b c@d e@f one two three'', PInt 2)]"
  by (simp add: normalize_items_def as_dict_def str_defs dict_get_def py_or_def
      normalize_importance_def Let_def)

theorem footer_rejection_counterexample:
  "fallback_extract_from_body ascii_tables (S ''a@b c@d e@f one two three'')
     = Inr [(S ''a@b c@d e@f one two three'', PInt 2)] \<and>
   2 < count_list (S ''a@b c@d e@f one two three'') 64"
proof -
  have "fallback_items ascii_tables (S ''a@b c@d e@f one two three'')
      = [(S ''a@b c@d e@f one two three'', PInt 2)]"
    by (simp add: fallback_items_def footer_text footer_split footer_not_candidate
        footer_words Let_def)
  moreover have "S ''a@b c@d e@f one two three'' \<noteq> []" by (simp add: S_def)
  moreover have "2 < count_list (S ''a@b c@d e@f one two three'') 64" by (simp add: S_def)
  ultimately show ?thesis by (simp add: fallback_extract_from_body_def footer_renorm)
qed

section \<open>Properties of the Text Normalizer\<close>

lemma length_rstrip: "length (rstrip s) \<le> length s"
  using length_dropWhile_le [of isspace "rev s"] by (simp add: rstrip_def)

lemma length_strip: "length (strip s) \<le> length s"
proof -
  have "length (strip s) \<le> length (lstrip s)" unfolding strip_def by (rule length_rstrip)
  also have "\<dots> \<le> length s" unfolding lstrip_def by (rule length_dropWhile_le)
  finally show ?thesis .
qed

lemma truncate_str_bound: "length (truncate_str text MAX_CHARS) \<le> 1500"
proof (cases "int (length text) \<le> MAX_CHARS")
  case True
  then have "length text \<le> 1500" by (simp add: MAX_CHARS_def)
  then show ?thesis using True length_strip [of "text"] by (simp add: truncate_str_def)
next
  case False
  have "length (rstrip (take 1499 text)) \<le> 1499"
    using length_rstrip [of "take 1499 text"] by simp
  then show ?thesis using False by (simp add: truncate_str_def MAX_CHARS_def slice_to_def)
qed

lemma truncate_str_long:
  "1500 < length text \<Longrightarrow> truncate_str text MAX_CHARS = rstrip (take 1499 text) @ [ellipsis]"
  by (simp add: truncate_str_def MAX_CHARS_def slice_to_def)

text \<open>
  C2. For every input body, the cleaned body that \<^verbatim>\<open>clean_email\<close> returns has at most
  1500 characters, and whenever the text before truncation had more than 1500
  characters the cleaned body is its first 1499 characters, without trailing
  whitespace, followed by the one character U+2026: it ends with the ellipsis.
\<close>

theorem clean_email_truncation_bound:
  "length (email_body (clean_email U L subject body headers)) \<le> 1500 \<and>
   (1500 < length (pre_truncation U L body) \<longrightarrow>
    email_body (clean_email U L subject body headers)
      = rstrip (take 1499 (pre_truncation U L body)) @ [ellipsis] \<and>
    last (email_body (clean_email U L subject body headers)) = ellipsis)"
  using truncate_str_bound [of "pre_truncation U L body"]
    truncate_str_long [of "pre_truncation U L body"]
  by (simp add: clean_email_def Let_def)

lemma contains_replicate:
  "t \<noteq> [] \<Longrightarrow> hd t \<noteq> x \<Longrightarrow> \<not> contains (replicate n x) t"
  by (induction n) (auto simp: neq_Nil_conv)

lemma url_sub_replicate: "x \<noteq> 104 \<Longrightarrow> url_sub rep (replicate n x) = replicate n x"
  by (induction n) (auto simp: url_match_def after_prefix_def S_def)

lemma pre_truncation_xs:
  "pre_truncation ascii_tables plain_library (replicate 2000 120) = replicate 2000 120"
proof -
  have a: "lower ascii_tables (replicate 2000 120) = replicate 2000 120"
    by (simp add: lower_def lower_ascii_def list_all_iff)
  have b: "\<not> contains (replicate 2000 120) (S ''<html'')"
    by (rule contains_replicate) (simp_all add: S_def)
  have c: "\<not> contains (take 200 (replicate 2000 120)) (S ''</'')"
    unfolding take_replicate by (rule contains_replicate) (simp_all add: S_def)
  show ?thesis
    using a b c
    by (simp add: pre_truncation_def plain_library_def simplify_urls_def url_sub_replicate
        Let_def del: take_replicate)
qed

theorem clean_email_truncation_bound_witness:
  "1500 < length (pre_truncation ascii_tables plain_library (replicate 2000 120)) \<and>
   email_body (clean_email ascii_tables plain_library [] (replicate 2000 120) None)
     = replicate 1499 120 @ [ellipsis] \<and>
   length (email_body (clean_email ascii_tables plain_library [] (replicate 2000 120) None))
     = 1500"
proof -
  have h: "1500 < length (pre_truncation ascii_tables plain_library (replicate 2000 120))"
    by (simp add: pre_truncation_xs)
  have r: "rstrip (take 1499 (replicate 2000 (120::nat))) = replicate 1499 120"
    by (simp add: rstrip_def isspace_def)
  have "email_body (clean_email ascii_tables plain_library [] (replicate 2000 120) None)
      = rstrip (take 1499 (pre_truncation ascii_tables plain_library (replicate 2000 120)))
        @ [ellipsis]"
    using h clean_email_truncation_bound
      [of ascii_tables plain_library "[]" "replicate 2000 120" None]
    by blast
  then show ?thesis using h r by (simp add: pre_truncation_xs)
qed

section \<open>Properties of the part-tree search\<close>

lemma find_append_case:
  "(case find P (xs @ ys) of None \<Rightarrow> d | Some q \<Rightarrow> f q) =
   (case find P xs of None \<Rightarrow> (case find P ys of None \<Rightarrow> d | Some q \<Rightarrow> f q) | Some q \<Rightarrow> f q)"
  by (induction xs) auto

lemma find_holds: "find P xs = Some q \<Longrightarrow> P q"
  by (induction xs) (auto split: if_splits)

lemma decode_part_visited:
  "decode_part dec p =
     (case find (\<lambda>q. hit q \<and> decoded dec q \<noteq> []) (visited p) of
        None \<Rightarrow> [] | Some q \<Rightarrow> decoded dec q)"
  and decode_parts_visited:
  "decode_parts dec ps =
     (case find (\<lambda>q. hit q \<and> decoded dec q \<noteq> []) (visited_list ps) of
        None \<Rightarrow> [] | Some q \<Rightarrow> decoded dec q)"
proof (induction dec p and dec ps rule: decode_part_decode_parts.induct)
  case (1 dec mime_type data parts)
  show ?case
  proof (cases data)
    case None
    then show ?thesis using 1(1) by simp
  next
    case (Some d)
    show ?thesis
    proof (cases "d \<noteq> [] \<and> textual mime_type")
      case True
      then show ?thesis using Some by (simp split: option.splits)
    next
      case False
      then show ?thesis using Some 1(2) by auto
    qed
  qed
next
  case (2 dec)
  show ?case by simp
next
  case (3 dec sub subs)
  let ?P = "\<lambda>q. hit q \<and> decoded dec q \<noteq> []"
  show ?case
  proof (cases "find ?P (visited sub)")
    case None
    then have e: "decode_part dec sub = []" using 3(1) by simp
    then have "decode_parts dec subs =
       (case find ?P (visited_list subs) of None \<Rightarrow> [] | Some q \<Rightarrow> decoded dec q)"
      using 3(2) by simp
    then show ?thesis using e None by (simp add: find_append_case)
  next
    case (Some q)
    then have "decoded dec q \<noteq> []" using find_holds [of ?P "visited sub" q] by simp
    moreover have "decode_part dec sub = decoded dec q" using 3(1) Some by simp
    ultimately show ?thesis using Some by (simp add: find_append_case)
  qed
qed

text \<open>
  C5, amended. For every MIME part tree, \<^verbatim>\<open>_decode_part\<close> searches in pre-order, without
  going below a part whose MIME type is textual and whose payload data is present, and
  returns the decoded content of the first such part whose decoded content is not
  empty; a decode failure makes the content of that part the empty string and never
  raises, so the search goes on to later parts. With no such part the result is the
  empty string.
\<close>

theorem decode_part_first_hit:
  "decode_part dec p =
     (case find (\<lambda>q. hit q \<and> decoded dec q \<noteq> []) (visited p) of
        None \<Rightarrow> [] | Some q \<Rightarrow> decoded dec q)"
  by (rule decode_part_visited)

lemma b64_bad: "b64_text plain_library (S ''a'') = None"
  by (simp add: b64_text_def S_def b64_value_def)

lemma b64_hi: "b64_text plain_library (S ''aGk='') = Some (S ''hi'')"
  by (simp add: b64_text_def S_def b64_value_def)

text \<open>
  C5 as stated fails: the first textual part with data below cannot be decoded (one
  data character), the code goes on to the next part and returns \<^verbatim>\<open>"hi"\<close>, where the
  claim has the empty string.
\<close>

theorem decode_part_first_hit_counterexample:
  "decode_part (b64_text plain_library)
     (Part (S ''multipart/alternative'') None
        [Part (S ''text/plain'') (Some (S ''a'')) [],
         Part (S ''text/html'') (Some (S ''aGk='')) []])
   = S ''hi'' \<and>
   first_hit_claimed (b64_text plain_library)
     (Part (S ''multipart/alternative'') None
        [Part (S ''text/plain'') (Some (S ''a'')) [],
         Part (S ''text/html'') (Some (S ''aGk='')) []])
   = []"
proof -
  have t1: "textual (S ''text/plain'')" by (simp add: textual_def)
  have t2: "textual (S ''text/html'')" by (simp add: textual_def S_def)
  have n1: "S ''a'' \<noteq> []" and n2: "S ''aGk='' \<noteq> []" and n3: "S ''hi'' \<noteq> []"
    by (simp_all add: S_def)
  show ?thesis
    by (simp add: first_hit_claimed_def b64_bad b64_hi t1 t2 n1 n2 n3)
qed

section \<open>Totality of the core operations\<close>






lemma decode_raw_of:
  "decode_part_raw dec (raw_of p) = Inr (decode_part dec p)"
  and decode_raws_of:
  "decode_parts_raw dec (map raw_of ps) = Inr (decode_parts dec ps)"
proof (induction dec p and dec ps rule: decode_part_decode_parts.induct)
  case (1 dec mime_type data parts)
  show ?case
  proof (cases data)
    case None
    then show ?thesis using 1(1) by simp
  next
    case (Some d)
    then show ?thesis using 1(2) by (simp split: option.splits)
  qed
next
  case (2 dec)
  show ?case by simp
next
  case (3 dec sub subs)
  show ?case
  proof (cases "decode_part dec sub = []")
    case True
    then show ?thesis using 3 by simp
  next
    case False
    then show ?thesis using 3(1) by simp
  qed
qed




lemma undecodable_empty:
  "dec d = None \<Longrightarrow> d \<noteq> [] \<Longrightarrow> textual mime_type \<Longrightarrow>
   decode_part_raw dec (RawPart (Value mime_type) (Value (Value d)) parts) = Inr []"
  by simp




section \<open>The header-map cache\<close>

lemma sort_swap:
  "sort [(S ''Received'', S ''a''), (S ''Received'', S ''b'')]
   = sort [(S ''Received'', S ''b''), (S ''Received'', S ''a'')]"
  by (simp add: S_def)

text \<open>
  C10. Header-map normalization is to be independent of the order of the header list.
  It is not when a name is repeated with different values: the two lists below are
  permutations of each other and have the same cache key, the dict keeps the last
  value of a name, so on an empty cache they give different maps, and after the first
  list has been seen the cache answers the second list with the first list's map.
\<close>

theorem headers_to_dict_order_dependent:
  "sort [(S ''Received'', S ''a''), (S ''Received'', S ''b'')]
     = sort [(S ''Received'', S ''b''), (S ''Received'', S ''a'')] \<and>
   fst (headers_to_dict Map.empty [(S ''Received'', S ''a''), (S ''Received'', S ''b'')])
     = [(S ''Received'', S ''b'')] \<and>
   fst (headers_to_dict Map.empty [(S ''Received'', S ''b''), (S ''Received'', S ''a'')])
     = [(S ''Received'', S ''a'')] \<and>
   fst (headers_to_dict
          (snd (headers_to_dict Map.empty [(S ''Received'', S ''a''), (S ''Received'', S ''b'')]))
          [(S ''Received'', S ''b''), (S ''Received'', S ''a'')])
     = [(S ''Received'', S ''b'')]"
proof -
  have ne: "S ''a'' \<noteq> S ''b''" by (simp add: S_def)
  show ?thesis
    using sort_swap ne
    by (simp add: headers_to_dict_def dict_of_headers_def Let_def)
qed

end
